theory Spec2Isabelle
  imports Main "HOL-Library.Word" "HOL-Library.Monad_Syntax"
begin

section \<open>The allocator of malloc.c as state-passing functions\<close>

text \<open>
  The model follows \<^verbatim>\<open>malloc.c\<close> statement by statement, for the LP64 Linux target the
  file is written for: \<^verbatim>\<open>size_t\<close> and pointers are 64-bit words whose arithmetic wraps,
  \<^verbatim>\<open>sizeof(mem_header)\<close> is 32 (an 8-byte size, a bool padded to 8 bytes, two 8-byte
  pointers), \<^verbatim>\<open>PAGE_SIZE\<close> is the default 4096 of \<^verbatim>\<open>malloc.h\<close> and
  \<^verbatim>\<open>ALIGNMENT_WIDTH\<close> is 16. The null pointer is the address 0.

  The in-band headers live in an explicit store, a function from header addresses to
  header values. A header is read and written as one cell, field by field, in the order
  of the source, so two pointers to the same address alias as they do in C. Headers at
  two different addresses do not share storage in the model; in the program they are
  32 bytes wide, so the model is exact whenever the headers that an operation touches
  are at least 32 bytes apart, as they are in every heap that is laid out contiguously.
  Payload bytes are not modelled: the allocator never reads them.

  A result \<open>None\<close> means that the call has no defined result: it dereferences the null
  pointer, it reads or writes a header at or above the program break, where no page is
  mapped, or its search loop never ends.
\<close>

type_synonym addr = "64 word"

record mem_header =
  size_h :: "64 word"
  free :: bool
  prev :: addr
  "next" :: addr

text \<open>
  The process state: the two globals of \<^verbatim>\<open>malloc.c\<close>, the header store, and the part
  of the operating system that the allocator talks to: the program break, and a script
  \<open>sbrk_fail\<close> that decides which of the coming \<^verbatim>\<open>sbrk\<close> calls the system refuses
  (\<open>True\<close> at the head: the next call fails; an empty script: no refusal). The list
  \<open>sbrk_calls\<close> is a log, read by no operation: the increments that \<^verbatim>\<open>sbrk\<close> was
  called with, the latest first.
\<close>

record heap =
  head_ptr :: addr
  tail_ptr :: addr
  mem :: "addr \<Rightarrow> mem_header"
  brk :: addr
  sbrk_fail :: "bool list"
  sbrk_calls :: "64 word list"

definition hdr :: "64 word" where
  "hdr = 32"

definition PAGE_SIZE :: "64 word" where
  "PAGE_SIZE = 4096"

definition ALIGNMENT_WIDTH :: "64 word" where
  "ALIGNMENT_WIDTH = 16"

text \<open>
  \<^verbatim>\<open>sbrk(increment)\<close>, the break-moving primitive of the system library: it returns the
  previous break and moves the break by the signed increment, or returns
  \<^verbatim>\<open>(void *) -1\<close> and moves nothing. It fails when the script says so, and when the
  new break would leave the address space.
\<close>

definition sbrk :: "64 word \<Rightarrow> heap \<Rightarrow> addr \<times> heap" where
  "sbrk increment st =
     (let refused = (case sbrk_fail st of [] \<Rightarrow> False | f # _ \<Rightarrow> f);
          st1 = st\<lparr>sbrk_fail := tl (sbrk_fail st), sbrk_calls := increment # sbrk_calls st\<rparr>;
          new = uint (brk st) + sint increment
      in if refused \<or> new < 0 \<or> 2 ^ 64 \<le> new then (- 1, st1)
         else (brk st, st1\<lparr>brk := brk st + increment\<rparr>))"

text \<open>
  Reading and writing a header through a pointer. A header occupies the 32 bytes from
  its address. The access is defined when the pointer is not null and these 32 bytes lie
  below the program break. At and above the break no page is mapped: the heap has not
  grown that far, or a release has returned the pages to the system with \<^verbatim>\<open>sbrk\<close>, and
  the process faults there. Below the break the store is read as it is; the allocator
  starts its heap at the break that it finds, and the model does not tell the memory
  below that point from the heap.
\<close>

definition mapped :: "heap \<Rightarrow> addr \<Rightarrow> bool" where
  "mapped st p = (p \<noteq> 0 \<and> unat p + 32 \<le> unat (brk st))"

definition deref :: "heap \<Rightarrow> addr \<Rightarrow> mem_header option" where
  "deref st p = (if mapped st p then Some (mem st p) else None)"

definition store :: "addr \<Rightarrow> (mem_header \<Rightarrow> mem_header) \<Rightarrow> heap \<Rightarrow> heap option" where
  "store p f st = (if mapped st p then Some (st\<lparr>mem := (mem st)(p := f (mem st p))\<rparr>) else None)"

text \<open>Line 64: the request is padded so that header plus payload is a multiple of 16.\<close>

definition padding :: "64 word \<Rightarrow> 64 word" where
  "padding size0 = (ALIGNMENT_WIDTH - (size0 + hdr)) mod ALIGNMENT_WIDTH"

definition pad_size :: "64 word \<Rightarrow> 64 word" where
  "pad_size size0 = size0 + padding size0"

text \<open>
  Lines 74 to 98: the first-fit loop. It returns the first header on the \<open>next\<close> chain
  that is free and large enough, or null when the chain ends. On a cyclic chain without
  a fit the loop of the source never ends, and \<open>find_fit\<close> is \<open>None\<close>; so it is
  when the chain leaves the mapped memory.
\<close>

partial_function (option) find_fit :: "heap \<Rightarrow> 64 word \<Rightarrow> addr \<Rightarrow> addr option" where
  "find_fit st size0 heap_ptr =
     (if heap_ptr = 0 then Some 0
      else do {
        h \<leftarrow> deref st heap_ptr;
        if free h \<and> size0 + hdr \<le> size_h h then Some heap_ptr
        else find_fit st size0 (next h) })"

declare find_fit.simps [code]

text \<open>Lines 76 to 96: the body of the loop at the block that fits.\<close>

definition take_block :: "heap \<Rightarrow> addr \<Rightarrow> 64 word \<Rightarrow> (addr \<times> heap) option" where
  "take_block st heap_ptr size0 = do {
     h \<leftarrow> deref st heap_ptr;
     (size1, st1) \<leftarrow>
       (if size0 + 2 * hdr < size_h h then do {
          let next_block = heap_ptr + size0 + hdr;
          s1 \<leftarrow> store next_block (\<lambda>x. x\<lparr>size_h := size_h h - (size0 + hdr)\<rparr>) st;
          s2 \<leftarrow> store next_block (\<lambda>x. x\<lparr>free := True\<rparr>) s1;
          s3 \<leftarrow> store next_block (\<lambda>x. x\<lparr>prev := heap_ptr\<rparr>) s2;
          h3 \<leftarrow> deref s3 heap_ptr;
          s4 \<leftarrow> store next_block (\<lambda>x. x\<lparr>next := next h3\<rparr>) s3;
          s5 \<leftarrow> store heap_ptr (\<lambda>x. x\<lparr>next := next_block\<rparr>) s4;
          Some (size0, s5) }
        else Some (size_h h, st));
     st2 \<leftarrow> store heap_ptr (\<lambda>x. x\<lparr>size_h := size1\<rparr>) st1;
     st3 \<leftarrow> store heap_ptr (\<lambda>x. x\<lparr>free := False\<rparr>) st2;
     h4 \<leftarrow> deref st3 heap_ptr;
     Some (heap_ptr + hdr,
           if tail_ptr st3 = heap_ptr \<and> next h4 \<noteq> 0 then st3\<lparr>tail_ptr := next h4\<rparr> else st3) }"

text \<open>Lines 107 to 110: the amount by which the heap grows, a whole number of pages.\<close>

definition block_size_for :: "64 word \<Rightarrow> 64 word \<Rightarrow> 64 word" where
  "block_size_for size1 additional_space =
     (let block_size = size1 + hdr - additional_space
      in if block_size mod PAGE_SIZE \<noteq> 0
         then block_size + (PAGE_SIZE - block_size mod PAGE_SIZE)
         else block_size)"

text \<open>
  Lines 119 to 125: where the returned block goes. On an empty heap it is the block at
  the old break, to which \<open>tail_ptr\<close> points already; after a tail that is in use it is
  a new block behind it; a free tail is taken over as it is.
\<close>

definition place_block :: "bool \<Rightarrow> heap \<Rightarrow> heap option" where
  "place_block heap_empty st =
     (if heap_empty then store (tail_ptr st) (\<lambda>x. x\<lparr>prev := 0\<rparr>) st
      else do {
        t \<leftarrow> deref st (tail_ptr st);
        if \<not> free t then do {
          s1 \<leftarrow> store (tail_ptr st) (\<lambda>x. x\<lparr>next := tail_ptr st + size_h t + hdr\<rparr>) st;
          t1 \<leftarrow> deref s1 (tail_ptr s1);
          s2 \<leftarrow> store (next t1) (\<lambda>x. x\<lparr>prev := tail_ptr s1\<rparr>) s1;
          t2 \<leftarrow> deref s2 (tail_ptr s2);
          Some (s2\<lparr>tail_ptr := next t2\<rparr>) }
        else Some st })"

text \<open>Lines 137 to 146: the space left over behind the returned block.\<close>

definition tail_slack :: "64 word \<Rightarrow> 64 word \<Rightarrow> heap \<Rightarrow> heap option" where
  "tail_slack size1 leftover st =
     (if hdr < leftover then do {
        s1 \<leftarrow> store (tail_ptr st) (\<lambda>x. x\<lparr>next := tail_ptr st + size1 + hdr\<rparr>) st;
        t1 \<leftarrow> deref s1 (tail_ptr s1);
        s2 \<leftarrow> store (next t1) (\<lambda>x. x\<lparr>prev := tail_ptr s1\<rparr>) s1;
        t2 \<leftarrow> deref s2 (tail_ptr s2);
        let s3 = s2\<lparr>tail_ptr := next t2\<rparr>;
        s4 \<leftarrow> store (tail_ptr s3) (\<lambda>x. x\<lparr>free := True\<rparr>) s3;
        s5 \<leftarrow> store (tail_ptr s4) (\<lambda>x. x\<lparr>next := 0\<rparr>) s4;
        store (tail_ptr s5) (\<lambda>x. x\<lparr>size_h := leftover - hdr\<rparr>) s5 }
      else do {
        t \<leftarrow> deref st (tail_ptr st);
        store (tail_ptr st) (\<lambda>x. x\<lparr>size_h := size_h t + leftover\<rparr>) st })"

text \<open>Lines 107 to 148: growing the heap and carving the returned block from its top.\<close>

definition extend_heap :: "heap \<Rightarrow> 64 word \<Rightarrow> bool \<Rightarrow> 64 word \<Rightarrow> (addr \<times> heap) option" where
  "extend_heap st size1 heap_empty additional_space =
     (let block_size = block_size_for size1 additional_space;
          (r, st1) = sbrk block_size st
      in if r = - 1 then Some (0, st1)
         else do {
           st2 \<leftarrow> place_block heap_empty st1;
           st3 \<leftarrow> store (tail_ptr st2) (\<lambda>x. x\<lparr>next := 0\<rparr>) st2;
           st4 \<leftarrow> store (tail_ptr st3) (\<lambda>x. x\<lparr>free := False\<rparr>) st3;
           st5 \<leftarrow> store (tail_ptr st4) (\<lambda>x. x\<lparr>size_h := size1\<rparr>) st4;
           let return_ptr = tail_ptr st5 + hdr;
           let leftover = block_size + additional_space - (size1 + hdr);
           st6 \<leftarrow> tail_slack size1 leftover st5;
           Some (return_ptr, st6) })"

text \<open>
  \<^verbatim>\<open>_malloc\<close> (an Isabelle name cannot start with an underscore). The result is the
  returned pointer, null on failure, and the state after the call.
\<close>

definition u_malloc :: "heap \<Rightarrow> 64 word \<Rightarrow> (addr \<times> heap) option" where
  "u_malloc st size0 =
     (if size0 = 0 then Some (0, st)
      else
        let size1 = pad_size size0
        in if head_ptr st = 0 then
             (let (r, st1) = sbrk 0 st;
                  st2 = st1\<lparr>head_ptr := r, tail_ptr := r\<rparr>
              in if r = - 1 then Some (0, st2)
                 else extend_heap st2 size1 True 0)
           else do {
             heap_ptr \<leftarrow> find_fit st size1 (head_ptr st);
             if heap_ptr \<noteq> 0 then take_block st heap_ptr size1
             else do {
               t \<leftarrow> deref st (tail_ptr st);
               extend_heap st size1 False (if free t then size_h t + hdr else 0) } })"

text \<open>Lines 194 to 203.\<close>

definition eat_next_block :: "addr \<Rightarrow> heap \<Rightarrow> heap option" where
  "eat_next_block header_ptr st = do {
     h \<leftarrow> deref st header_ptr;
     n \<leftarrow> deref st (next h);
     s1 \<leftarrow> store header_ptr (\<lambda>x. x\<lparr>size_h := size_h h + (size_h n + hdr)\<rparr>) st;
     h1 \<leftarrow> deref s1 header_ptr;
     n1 \<leftarrow> deref s1 (next h1);
     s2 \<leftarrow> store header_ptr (\<lambda>x. x\<lparr>next := next n1\<rparr>) s1;
     h2 \<leftarrow> deref s2 header_ptr;
     if next h2 \<noteq> 0 then store (next h2) (\<lambda>x. x\<lparr>prev := header_ptr\<rparr>) s2 else Some s2 }"

text \<open>
  Lines 163 to 173: the freed block absorbs a free successor, then a free predecessor
  absorbs the block. The result is the header that the release goes on with.
\<close>

definition coalesce :: "addr \<Rightarrow> heap \<Rightarrow> (addr \<times> heap) option" where
  "coalesce header_ptr st = do {
     h1 \<leftarrow> deref st header_ptr;
     next_free \<leftarrow> (if next h1 = 0 then Some False else map_option free (deref st (next h1)));
     s2 \<leftarrow> (if next_free then eat_next_block header_ptr st else Some st);
     h2 \<leftarrow> deref s2 header_ptr;
     prev_free \<leftarrow> (if prev h2 = 0 then Some False else map_option free (deref s2 (prev h2)));
     if prev_free then do {
       s3 \<leftarrow> eat_next_block (prev h2) s2;
       Some (prev h2, s3) }
     else Some (header_ptr, s2) }"

text \<open>
  Lines 175 to 189: whole pages at the end of the heap go back to the system. The result
  of the \<^verbatim>\<open>sbrk\<close> call is ignored, as in the source.
\<close>

definition contract :: "addr \<Rightarrow> heap \<Rightarrow> heap option" where
  "contract header_ptr st = do {
     h \<leftarrow> deref st header_ptr;
     if next h = 0 \<and> PAGE_SIZE \<le> size_h h + hdr then do {
       let leftover = (size_h h + hdr) mod PAGE_SIZE;
       let excess = size_h h + hdr - leftover;
       s1 \<leftarrow>
         (if prev h = 0 then Some (st\<lparr>head_ptr := 0, tail_ptr := 0\<rparr>)
          else do {
            p \<leftarrow> deref st (prev h);
            s \<leftarrow> store (prev h) (\<lambda>x. x\<lparr>size_h := size_h p + leftover\<rparr>) st;
            store (prev h) (\<lambda>x. x\<lparr>next := 0\<rparr>) s });
       Some (snd (sbrk (- excess) s1)) }
     else Some st }"

text \<open>\<^verbatim>\<open>_free\<close>, lines 151 to 192.\<close>

definition u_free :: "heap \<Rightarrow> addr \<Rightarrow> heap option" where
  "u_free st ptr =
     (if ptr = 0 then Some st
      else do {
        let header_ptr = ptr - hdr;
        h \<leftarrow> deref st header_ptr;
        if free h then Some st
        else do {
          s1 \<leftarrow> store header_ptr (\<lambda>x. x\<lparr>free := True\<rparr>) st;
          (header_ptr1, s2) \<leftarrow> coalesce header_ptr s1;
          contract header_ptr1 s2 } })"

section \<open>Heaps to run the operations on, and what is observed of them\<close>

text \<open>A process that has not called the allocator yet: both globals are null.\<close>

definition fresh_heap :: "(addr \<Rightarrow> mem_header) \<Rightarrow> addr \<Rightarrow> bool list \<Rightarrow> heap" where
  "fresh_heap m b fs = \<lparr>head_ptr = 0, tail_ptr = 0, mem = m, brk = b, sbrk_fail = fs, sbrk_calls = []\<rparr>"

definition blank :: "addr \<Rightarrow> mem_header" where
  "blank = (\<lambda>_. \<lparr>size_h = 0, free = False, prev = 0, next = 0\<rparr>)"

text \<open>
  The block directory: the headers met from a pointer along \<open>next\<close>. \<open>walk\<close> lists at
  most \<open>k\<close> of them; \<open>chain m p bs\<close> says that they are exactly \<open>bs\<close> and that the
  last one has a null \<open>next\<close>.
\<close>

fun walk :: "nat \<Rightarrow> (addr \<Rightarrow> mem_header) \<Rightarrow> addr \<Rightarrow> addr list" where
  "walk 0 m p = []"
| "walk (Suc k) m p = (if p = 0 then [] else p # walk k m (next (m p)))"

fun chain :: "(addr \<Rightarrow> mem_header) \<Rightarrow> addr \<Rightarrow> addr list \<Rightarrow> bool" where
  "chain m p [] = (p = 0)"
| "chain m p (b # bs) = (p = b \<and> b \<noteq> 0 \<and> chain m (next (m b)) bs)"

text \<open>
  The rounding rule in the words of the specification: \<open>p\<close> is the smallest natural
  number for which \<open>n + 32 + p\<close> is divisible by 16.
\<close>

definition least_padding :: "nat \<Rightarrow> nat \<Rightarrow> bool" where
  "least_padding n p = (16 dvd n + 32 + p \<and> list_all (\<lambda>q. \<not> 16 dvd n + 32 + q) [0..<p])"

text \<open>
  A block fits a request of effective size \<open>s\<close> when it is free and its size is at least
  \<open>s\<close> plus the header footprint, over the integers.
\<close>

definition fits :: "(addr \<Rightarrow> mem_header) \<Rightarrow> 64 word \<Rightarrow> addr \<Rightarrow> bool" where
  "fits m s b = (free (m b) \<and> unat s + 32 \<le> unat (size_h (m b)))"

text \<open>
  A heap of three blocks below the break \<open>0x11000\<close>: a free block of 112 bytes, a block
  of 112 bytes in use, and a free block of 3776 bytes.
\<close>

definition three_blocks :: heap where
  "three_blocks =
     \<lparr>head_ptr = 0x10000, tail_ptr = 0x10120,
      mem = blank
        (0x10000 := \<lparr>size_h = 112, free = True, prev = 0, next = 0x10090\<rparr>,
         0x10090 := \<lparr>size_h = 112, free = False, prev = 0x10000, next = 0x10120\<rparr>,
         0x10120 := \<lparr>size_h = 3776, free = True, prev = 0x10090, next = 0\<rparr>),
      brk = 0x11000, sbrk_fail = [], sbrk_calls = []\<rparr>"

text \<open>
  A heap of two blocks that fill one page, as an allocation of 3900 bytes on a fresh heap
  leaves it: a block of 3904 bytes in use, and a free tail block of 128 bytes.
\<close>

definition credit_heap :: heap where
  "credit_heap =
     \<lparr>head_ptr = 0x10000, tail_ptr = 0x10F60,
      mem = blank
        (0x10000 := \<lparr>size_h = 3904, free = False, prev = 0, next = 0x10F60\<rparr>,
         0x10F60 := \<lparr>size_h = 128, free = True, prev = 0x10000, next = 0\<rparr>),
      brk = 0x11000, sbrk_fail = [], sbrk_calls = [4096, 0]\<rparr>"



text \<open>
  The heap invariants of the specification, for a directory \<open>bs\<close> and the break \<open>e\<close>:
  the blocks of \<open>bs\<close> are what is met from the head along \<open>next\<close>; every block has its
  predecessor as \<open>prev\<close>, the first one null (list consistency); every block has a size
  that is not zero; every block is followed at once by its successor (contiguity), and
  the last block ends at or below the break. In a well-formed heap \<open>tail_ptr\<close> points at
  the last block, and is null when there is none; the break is not null.
\<close>

fun dir :: "(addr \<Rightarrow> mem_header) \<Rightarrow> addr \<Rightarrow> addr \<Rightarrow> addr list \<Rightarrow> nat \<Rightarrow> bool" where
  "dir m p a [] e = (a = 0)"
| "dir m p a (b # bs) e =
     (a = b \<and> b \<noteq> 0 \<and> prev (m b) = p \<and> size_h (m b) \<noteq> 0
      \<and> (if next (m b) = 0 then unat b + 32 + unat (size_h (m b)) \<le> e
          else unat (next (m b)) = unat b + 32 + unat (size_h (m b)))
      \<and> dir m b (next (m b)) bs e)"



section \<open>Running the operations\<close>

lemmas run_defs = u_malloc_def u_free_def extend_heap_def place_block_def tail_slack_def take_block_def
  coalesce_def contract_def eat_next_block_def
  block_size_for_def pad_size_def padding_def sbrk_def deref_def store_def mapped_def fresh_heap_def
  blank_def
  hdr_def PAGE_SIZE_def ALIGNMENT_WIDTH_def Let_def find_fit.simps

lemma walk_numeral [simp]:
  "walk (numeral k) m p = (if p = 0 then [] else p # walk (pred_numeral k) m (next (m p)))"
  by (simp add: numeral_eq_Suc)

section \<open>List consistency after a split (C1)\<close>

text \<open>
  C1 says that after every \<^verbatim>\<open>_malloc\<close> and \<^verbatim>\<open>_free\<close> every linked pair of headers
  satisfies \<open>b.next.prev = b\<close> and \<open>b.prev.next = b\<close>, in particular when \<^verbatim>\<open>_malloc\<close>
  splits a free block that has a successor. The source sets the remainder's \<open>prev\<close> and
  \<open>next\<close> and the split block's \<open>next\<close> (lines 78 to 83), but not the successor's
  \<open>prev\<close>, which \<open>eat_next_block\<close> does set when it relinks (lines 199 and 200).

  The run: on a fresh heap with the break at \<open>0x10000\<close>, allocate 100 bytes twice, release
  the first block, allocate 1 byte. The last call splits the first block (112 bytes, at
  \<open>0x10000\<close>), whose successor is the second block at \<open>0x10090\<close>. Afterwards the
  directory is \<open>0x10000, 0x10030, 0x10090, 0x10120\<close>; the remainder at \<open>0x10030\<close> has
  the block at \<open>0x10090\<close> as its \<open>next\<close>, but the \<open>prev\<close> of that block is still
  \<open>0x10000\<close>.
\<close>

theorem split_leaves_successor_back_link_stale:
  "do { (a, s1) \<leftarrow> u_malloc (fresh_heap blank 0x10000 []) 100;
        (b, s2) \<leftarrow> u_malloc s1 100;
        s3 \<leftarrow> u_free s2 a;
        (c, s4) \<leftarrow> u_malloc s3 1;
        Some (c, walk 8 (mem s4) (head_ptr s4), next (mem s4 0x10030), prev (mem s4 0x10090)) }
   = Some (0x10020, [0x10000, 0x10030, 0x10090, 0x10120], 0x10090, 0x10000)"
  by (simp add: run_defs)

section \<open>The tail reference after a release (C2)\<close>

text \<open>
  C2 says that after every \<^verbatim>\<open>_free\<close> the tail reference is the last block of the
  directory, in particular when tail contraction runs on a block that has a predecessor
  and when backward coalescing absorbs the last block. \<^verbatim>\<open>_free\<close> assigns \<open>tail_ptr\<close>
  only together with \<open>head_ptr\<close>, when the freed block has no predecessor (line 182);
  \<open>eat_next_block\<close> never assigns it.

  First run: allocate 100 and 5000 bytes on a fresh heap, release the second block. It
  absorbs the free tail block at \<open>0x11440\<close>, one page goes back to the system, and the
  first block becomes the only block; \<open>tail_ptr\<close> is still \<open>0x11440\<close>, above the
  new break \<open>0x11000\<close>.

  Second run: allocate 100, 100, 100 and 3600 bytes (the last call takes the whole free
  tail block at \<open>0x101B0\<close>), release the third block, then the fourth. The third block
  at \<open>0x10120\<close> absorbs the fourth and is now the last of the directory;
  \<open>tail_ptr\<close> is still \<open>0x101B0\<close>.
\<close>

theorem free_leaves_tail_ptr_stale:
  "do { (a, s1) \<leftarrow> u_malloc (fresh_heap blank 0x10000 []) 100;
        (b, s2) \<leftarrow> u_malloc s1 5000;
        s3 \<leftarrow> u_free s2 b;
        Some (walk 8 (mem s2) (head_ptr s2), tail_ptr s2,
              walk 8 (mem s3) (head_ptr s3), tail_ptr s3, brk s3) }
   = Some ([0x10000, 0x10090, 0x11440], 0x11440, [0x10000], 0x11440, 0x11000)
   \<and>
   do { (a, s1) \<leftarrow> u_malloc (fresh_heap blank 0x10000 []) 100;
        (b, s2) \<leftarrow> u_malloc s1 100;
        (c, s3) \<leftarrow> u_malloc s2 100;
        (d, s4) \<leftarrow> u_malloc s3 3600;
        s5 \<leftarrow> u_free s4 c;
        s6 \<leftarrow> u_free s5 d;
        Some (walk 8 (mem s4) (head_ptr s4), tail_ptr s4,
              walk 8 (mem s6) (head_ptr s6), tail_ptr s6, brk s6) }
   = Some ([0x10000, 0x10090, 0x10120, 0x101B0], 0x101B0,
           [0x10000, 0x10090, 0x10120], 0x101B0, 0x11000)"
  by (simp add: run_defs)

section \<open>Failure of the boundary driver (C3)\<close>

text \<open>
  C3 says that when \<^verbatim>\<open>sbrk\<close> fails, \<^verbatim>\<open>_malloc\<close> returns null and leaves head, tail and
  every header as they were. On an empty heap the source assigns the result of the
  break query to both globals before it tests it (line 68), and does not reset them when
  the growth fails (line 115).

  On a fresh heap whose first \<^verbatim>\<open>sbrk\<close> call fails, \<^verbatim>\<open>_malloc(100)\<close> returns null and
  leaves both globals at \<^verbatim>\<open>(void *) -1\<close>. When the query succeeds and the growth fails,
  it returns null and leaves both globals at the break \<open>0x10000\<close>, where no header has
  been written. In both cases the globals were null before the call.
\<close>

theorem failed_bootstrap_changes_globals:
  "map_option (\<lambda>(p, s). (p, head_ptr s, tail_ptr s))
     (u_malloc (fresh_heap blank 0x10000 [True]) 100) = Some (0, - 1, - 1)
   \<and>
   map_option (\<lambda>(p, s). (p, head_ptr s, tail_ptr s))
     (u_malloc (fresh_heap blank 0x10000 [False, True]) 100) = Some (0, 0x10000, 0x10000)"
  by (simp add: run_defs)

section \<open>The rounding rule (C6)\<close>

lemma mod_2p64_mod_16: "(x :: int) mod 2 ^ 64 mod 16 = x mod 16"
  by (rule mod_mod_cancel) simp

text \<open>
  The unsigned expression of line 64 underflows for every request, and still is the
  distance from the request to the next multiple of 16: 16 divides \<open>2 ^ 64\<close>.
\<close>

lemma uint_padding: "uint (padding n) = (- uint n) mod 16"
proof -
  have a: "uint (padding n) = uint (16 - (n + 32)) mod 16"
    unfolding padding_def ALIGNMENT_WIDTH_def hdr_def by (simp only: uint_mod_distrib) simp
  have b: "uint ((16 :: 64 word) - (n + 32)) = (16 - uint (n + 32)) mod 2 ^ 64"
    using uint_word_ariths(2) [of "16 :: 64 word" "n + 32"] by (simp del: diff_add_eq_diff_diff_swap)
  have c: "uint (n + 32) = (uint n + 32) mod 2 ^ 64"
    using uint_word_ariths(1) [of n "32 :: 64 word"] by simp
  have "uint (padding n) = (16 - uint (n + 32)) mod 16"
    unfolding a b by (rule mod_2p64_mod_16)
  also have "\<dots> = (16 - uint (n + 32) mod 16) mod 16"
    by (simp only: mod_diff_right_eq)
  also have "uint (n + 32) mod 16 = (uint n + 32) mod 16"
    unfolding c by (rule mod_2p64_mod_16)
  also have "(16 - (uint n + 32) mod 16) mod 16 = (16 - (uint n + 32)) mod 16"
    by (simp only: mod_diff_right_eq)
  also have "16 - (uint n + 32) = 16 * (- 1) + (- uint n)"
    by simp
  also have "(16 * (- 1) + (- uint n)) mod 16 = (- uint n) mod 16"
    by (rule mod_mult_self4)
  finally show ?thesis .
qed

lemma padding_less: "unat (padding n) < 16"
proof -
  have "uint (padding n) < 16"
    unfolding uint_padding by simp
  then have "int (unat (padding n)) < int 16"
    by simp
  then show ?thesis
    by (simp only: of_nat_less_iff)
qed

lemma padding_dvd: "16 dvd unat n + 32 + unat (padding n)"
proof -
  have "(uint n + uint (padding n)) mod 16 = (uint n + (- uint n)) mod 16"
    unfolding uint_padding by (simp only: mod_add_right_eq)
  then have "(uint n + uint (padding n)) mod 16 = 0"
    by simp
  then have "16 dvd uint n + uint (padding n)"
    by (rule mod_0_imp_dvd)
  then have "int 16 dvd int (unat n + unat (padding n))"
    by simp
  then have "16 dvd unat n + unat (padding n)"
    by (rule int_dvd_int_iff [THEN iffD1])
  moreover have "(16 :: nat) dvd 32"
    by simp
  ultimately have "16 dvd (unat n + unat (padding n)) + 32"
    by (rule dvd_add)
  then show ?thesis
    by (simp only: ac_simps)
qed

lemma least_paddingI:
  assumes "16 dvd n + 32 + p" and "p < 16"
  shows "least_padding n p"
proof -
  have "\<not> 16 dvd n + 32 + q" if "q < p" for q
  proof
    assume "16 dvd n + 32 + q"
    with assms(1) have "16 dvd (n + 32 + p) - (n + 32 + q)"
      by (rule dvd_diff_nat)
    then have "16 dvd p - q" by simp
    moreover have "0 < p - q" "p - q < 16" using that assms(2) by simp_all
    ultimately show False by (simp add: nat_dvd_not_less)
  qed
  with assms(1) show ?thesis
    by (simp add: least_padding_def list_all_iff)
qed

text \<open>
  C6 says that for every request \<open>n > 0\<close> the effective payload size is \<open>n + p\<close>, with
  \<open>p\<close> the smallest natural number that makes \<open>n + 32 + p\<close> divisible by 16, and that
  the unsigned expression of line 64 is that \<open>p\<close>. Read over the integers this fails for
  the fifteen largest requests: for \<open>n = 2 ^ 64 - 1\<close> the padding is 1, and the sum
  \<open>n + 1\<close> wraps to 0 in \<^verbatim>\<open>size_t\<close>.
\<close>

theorem pad_size_wraps_at_top:
  "least_padding (unat (0xFFFFFFFFFFFFFFFF :: 64 word)) 1
   \<and> padding 0xFFFFFFFFFFFFFFFF = 1
   \<and> pad_size 0xFFFFFFFFFFFFFFFF = 0
   \<and> unat (pad_size 0xFFFFFFFFFFFFFFFF) \<noteq> unat (0xFFFFFFFFFFFFFFFF :: 64 word) + 1"
  by (simp add: least_padding_def pad_size_def padding_def ALIGNMENT_WIDTH_def hdr_def)

text \<open>
  C6 as amended: for every request \<open>n\<close> the unsigned expression of line 64 is the smallest
  natural number \<open>p\<close> that makes \<open>n + 32 + p\<close> divisible by 16, and whenever \<open>n + p\<close>
  is below \<open>2 ^ 64\<close> the effective payload size is \<open>n + p\<close>.
\<close>

theorem padding_least:
  "least_padding (unat n) (unat (padding n)) \<and>
   (unat n + unat (padding n) < 2 ^ 64 \<longrightarrow> unat (pad_size n) = unat n + unat (padding n))"
proof
  show "least_padding (unat n) (unat (padding n))"
    by (rule least_paddingI [OF padding_dvd padding_less])
  show "unat n + unat (padding n) < 2 ^ 64 \<longrightarrow> unat (pad_size n) = unat n + unat (padding n)"
    using unat_add_lem [of n "padding n"] by (simp add: pad_size_def)
qed

theorem padding_least_witness:
  "least_padding (unat (100 :: 64 word)) (unat (padding 100))
   \<and> unat (100 :: 64 word) + unat (padding 100) < 2 ^ 64
   \<and> unat (pad_size 100) = unat (100 :: 64 word) + unat (padding 100)
   \<and> padding 100 = 12"
  using padding_least [of 100] by (simp add: padding_def ALIGNMENT_WIDTH_def hdr_def)

section \<open>Allocating and releasing at once (C7)\<close>

text \<open>
  C7 says that \<^verbatim>\<open>_free(_malloc(n))\<close> restores head, tail and all block headers, except
  for differences caused by crossing the tail-contraction threshold.

  The run: on a fresh heap allocate 5000 bytes; this is the state before the pair, with
  the directory \<open>0x10000, 0x113B0\<close>, the second block free and \<open>tail_ptr = 0x113B0\<close>.
  Then allocate 100 bytes, which splits the tail block, and release the pointer at once.
  Head, break, directory and every header of the directory are as before the pair, no
  page was returned, but \<open>tail_ptr\<close> is left at \<open>0x11440\<close>, the remainder that the
  release has absorbed again. It is the missing assignment of C2.
\<close>

theorem malloc_free_pair_moves_tail_ptr:
  "do { (a, s1) \<leftarrow> u_malloc (fresh_heap blank 0x10000 []) 5000;
        (b, s2) \<leftarrow> u_malloc s1 100;
        s3 \<leftarrow> u_free s2 b;
        Some (b,
              (head_ptr s1, tail_ptr s1, brk s1, walk 8 (mem s1) (head_ptr s1)),
              (head_ptr s3, tail_ptr s3, brk s3, walk 8 (mem s3) (head_ptr s3)),
              map (mem s1) (walk 8 (mem s1) (head_ptr s1)) = map (mem s3) (walk 8 (mem s3) (head_ptr s3))) }
   = Some (0x113D0,
           (0x10000, 0x113B0, 0x12000, [0x10000, 0x113B0]),
           (0x10000, 0x11440, 0x12000, [0x10000, 0x113B0]),
           True)"
  by (simp add: run_defs)

section \<open>The sequence of the test harness (C4)\<close>

lemma unat_add_nowrap:
  "unat (b :: 64 word) + unat k < 2 ^ 64 \<Longrightarrow> unat (b + k) = unat b + unat k"
  using unat_add_lem [of b k] by simp

lemma add_nz:
  assumes "b \<noteq> 0" and "unat (b :: 64 word) + unat k < 2 ^ 64"
  shows "b + k \<noteq> 0"
proof
  assume "b + k = 0"
  then have "unat (b + k) = 0" by simp
  then have "unat b = 0" using unat_add_nowrap [OF assms(2)] by simp
  then show False using assms(1) by (simp add: unat_eq_zero)
qed

lemma uint_add_nowrap:
  assumes "unat (b :: 64 word) + unat k < 2 ^ 64"
  shows "uint (b + k) = uint b + uint k"
proof -
  have "int (unat (b + k)) = int (unat b) + int (unat k)"
    using unat_add_nowrap [OF assms] by simp
  then show ?thesis by simp
qed

lemma harness_bound:
  assumes fit: "unat (b0 :: 64 word) + 40960 < 2 ^ 64"
  shows "uint b0 < 18446744073709510656"
proof -
  have "int (unat b0 + 40960) < int (2 ^ 64)"
    using fit by (simp only: of_nat_less_iff)
  then show ?thesis
    by simp
qed

text \<open>
  The addresses that the run of the harness meets, for a break \<open>b0\<close> that leaves room
  for the ten pages of the run: no header address is null, and the break does not wrap.
\<close>

lemma unat_add_small:
  assumes "unat (b0 :: 64 word) + 40960 < 2 ^ 64" and "unat c \<le> 40960"
  shows "unat (b0 + c) = unat b0 + unat c"
proof (rule unat_add_nowrap)
  show "unat b0 + unat c < 2 ^ 64" using assms by linarith
qed

lemma harness_facts:
  assumes nz: "(b0 :: 64 word) \<noteq> 0" and fit: "unat b0 + 40960 < 2 ^ 64"
  shows "b0 + 32 \<noteq> 0" "b0 + 352 \<noteq> 0" "b0 + 384 \<noteq> 0" "b0 + 4624 \<noteq> 0" "b0 + 4656 \<noteq> 0"
    "b0 + 4704 \<noteq> 0" "b0 + 4736 \<noteq> 0" "b0 + 38080 \<noteq> 0" "b0 + 4097 \<noteq> 0" "b0 + 8193 \<noteq> 0"
    "32 + b0 \<noteq> 0" "352 + b0 \<noteq> 0" "384 + b0 \<noteq> 0" "4624 + b0 \<noteq> 0" "4656 + b0 \<noteq> 0"
    "4704 + b0 \<noteq> 0" "4736 + b0 \<noteq> 0" "38080 + b0 \<noteq> 0" "4097 + b0 \<noteq> 0" "8193 + b0 \<noteq> 0"
    "uint (b0 + 4096) = uint b0 + 4096" "uint (b0 + 8192) = uint b0 + 8192"
    "uint (b0 + 40960) = uint b0 + 40960"
    "uint (4096 + b0) = uint b0 + 4096" "uint (8192 + b0) = uint b0 + 8192"
    "uint (40960 + b0) = uint b0 + 40960"
    "b0 \<noteq> - 1"
    "unat (b0 + 352) = unat b0 + 352" "unat (b0 + 4624) = unat b0 + 4624"
    "unat (b0 + 4704) = unat b0 + 4704" "unat (b0 + 38080) = unat b0 + 38080"
    "unat (b0 + 4096) = unat b0 + 4096" "unat (b0 + 8192) = unat b0 + 8192"
    "unat (b0 + 40960) = unat b0 + 40960"
    "unat (352 + b0) = unat b0 + 352" "unat (4624 + b0) = unat b0 + 4624"
    "unat (4704 + b0) = unat b0 + 4704" "unat (38080 + b0) = unat b0 + 38080"
    "unat (4096 + b0) = unat b0 + 4096" "unat (8192 + b0) = unat b0 + 8192"
    "unat (40960 + b0) = unat b0 + 40960"
proof -
  have k: "b0 + c \<noteq> 0" if "unat c \<le> 40960" for c
  proof (rule add_nz [OF nz])
    show "unat b0 + unat c < 2 ^ 64" using fit that by linarith
  qed
  have a: "b0 + 32 \<noteq> 0" "b0 + 352 \<noteq> 0" "b0 + 384 \<noteq> 0" "b0 + 4624 \<noteq> 0" "b0 + 4656 \<noteq> 0"
    "b0 + 4704 \<noteq> 0" "b0 + 4736 \<noteq> 0" "b0 + 38080 \<noteq> 0" "b0 + 4097 \<noteq> 0" "b0 + 8193 \<noteq> 0"
    by (rule k, simp)+
  have a': "32 + b0 \<noteq> 0" "352 + b0 \<noteq> 0" "384 + b0 \<noteq> 0" "4624 + b0 \<noteq> 0" "4656 + b0 \<noteq> 0"
    "4704 + b0 \<noteq> 0" "4736 + b0 \<noteq> 0" "38080 + b0 \<noteq> 0" "4097 + b0 \<noteq> 0" "8193 + b0 \<noteq> 0"
    using a unfolding add.commute [of _ b0] .
  have v: "uint (b0 + c) = uint b0 + uint c" if "unat c \<le> 40960" for c
  proof (rule uint_add_nowrap)
    show "unat b0 + unat c < 2 ^ 64" using fit that by linarith
  qed
  have u: "uint (b0 + 4096) = uint b0 + 4096" "uint (b0 + 8192) = uint b0 + 8192"
    "uint (b0 + 40960) = uint b0 + 40960"
    using v [of 4096] v [of 8192] v [of 40960] by simp_all
  have u': "uint (4096 + b0) = uint b0 + 4096" "uint (8192 + b0) = uint b0 + 8192"
    "uint (40960 + b0) = uint b0 + 40960"
    using u unfolding add.commute [of _ b0] .
  have m1: "b0 \<noteq> - 1"
  proof
    assume "b0 = - 1"
    moreover have "(- 1 :: 64 word) = 0xFFFFFFFFFFFFFFFF" by simp
    ultimately have "unat b0 = 18446744073709551615" by simp
    with fit show False by simp
  qed
  note w = unat_add_small [OF fit]
  have n: "unat (b0 + 352) = unat b0 + 352" "unat (b0 + 4624) = unat b0 + 4624"
    "unat (b0 + 4704) = unat b0 + 4704" "unat (b0 + 38080) = unat b0 + 38080"
    "unat (b0 + 4096) = unat b0 + 4096" "unat (b0 + 8192) = unat b0 + 8192"
    "unat (b0 + 40960) = unat b0 + 40960"
    using w [of 352] w [of 4624] w [of 4704] w [of 38080] w [of 4096] w [of 8192] w [of 40960]
    by simp_all
  have n': "unat (352 + b0) = unat b0 + 352" "unat (4624 + b0) = unat b0 + 4624"
    "unat (4704 + b0) = unat b0 + 4704" "unat (38080 + b0) = unat b0 + 38080"
    "unat (4096 + b0) = unat b0 + 4096" "unat (8192 + b0) = unat b0 + 8192"
    "unat (40960 + b0) = unat b0 + 40960"
    using n unfolding add.commute [of _ b0] .
  show "b0 + 32 \<noteq> 0" "b0 + 352 \<noteq> 0" "b0 + 384 \<noteq> 0" "b0 + 4624 \<noteq> 0" "b0 + 4656 \<noteq> 0"
    "b0 + 4704 \<noteq> 0" "b0 + 4736 \<noteq> 0" "b0 + 38080 \<noteq> 0" "b0 + 4097 \<noteq> 0" "b0 + 8193 \<noteq> 0"
    "32 + b0 \<noteq> 0" "352 + b0 \<noteq> 0" "384 + b0 \<noteq> 0" "4624 + b0 \<noteq> 0" "4656 + b0 \<noteq> 0"
    "4704 + b0 \<noteq> 0" "4736 + b0 \<noteq> 0" "38080 + b0 \<noteq> 0" "4097 + b0 \<noteq> 0" "8193 + b0 \<noteq> 0"
    "uint (b0 + 4096) = uint b0 + 4096" "uint (b0 + 8192) = uint b0 + 8192"
    "uint (b0 + 40960) = uint b0 + 40960"
    "uint (4096 + b0) = uint b0 + 4096" "uint (8192 + b0) = uint b0 + 8192"
    "uint (40960 + b0) = uint b0 + 40960"
    "b0 \<noteq> - 1"
    "unat (b0 + 352) = unat b0 + 352" "unat (b0 + 4624) = unat b0 + 4624"
    "unat (b0 + 4704) = unat b0 + 4704" "unat (b0 + 38080) = unat b0 + 38080"
    "unat (b0 + 4096) = unat b0 + 4096" "unat (b0 + 8192) = unat b0 + 8192"
    "unat (b0 + 40960) = unat b0 + 40960"
    "unat (352 + b0) = unat b0 + 352" "unat (4624 + b0) = unat b0 + 4624"
    "unat (4704 + b0) = unat b0 + 4704" "unat (38080 + b0) = unat b0 + 38080"
    "unat (4096 + b0) = unat b0 + 4096" "unat (8192 + b0) = unat b0 + 8192"
    "unat (40960 + b0) = unat b0 + 40960"
    by (fact a a' u u' m1 n n')+
qed

text \<open>
  C4: on an empty heap, with any contents of memory and any break \<open>b0\<close> that is not
  null and leaves room for the ten pages of the run below the top of the address space,
  and with a system that refuses no \<^verbatim>\<open>sbrk\<close> call, the four allocations of 312, 4234, 40
  and 33333 bytes succeed, and after the releases of the second, first, fourth and third
  block the break is \<open>b0\<close> again.
\<close>

theorem harness_returns_break:
  assumes nz: "b0 \<noteq> 0" and fit: "unat b0 + 40960 < 2 ^ 64"
  shows "do { (p0, s1) \<leftarrow> u_malloc (fresh_heap m b0 []) 312;
              (p1, s2) \<leftarrow> u_malloc s1 4234;
              (p2, s3) \<leftarrow> u_malloc s2 40;
              (p3, s4) \<leftarrow> u_malloc s3 33333;
              s5 \<leftarrow> u_free s4 p1;
              s6 \<leftarrow> u_free s5 p0;
              s7 \<leftarrow> u_free s6 p3;
              s8 \<leftarrow> u_free s7 p2;
              Some (p0 \<noteq> 0 \<and> p1 \<noteq> 0 \<and> p2 \<noteq> 0 \<and> p3 \<noteq> 0, brk s8) }
         = Some (True, b0)"
proof -
  obtain u where u: "uint b0 = u" by simp
  have u0: "0 \<le> u" using uint_ge_0 [of b0] unfolding u .
  have ub: "u < 18446744073709510656" using harness_bound [OF fit] unfolding u .
  show ?thesis
    using nz u0 ub by (simp add: run_defs harness_facts [OF nz fit, unfolded u] u)
qed

theorem harness_returns_break_witness:
  "(0x10000 :: 64 word) \<noteq> 0 \<and> unat (0x10000 :: 64 word) + 40960 < 2 ^ 64 \<and>
   do { (p0, s1) \<leftarrow> u_malloc (fresh_heap blank 0x10000 []) 312;
        (p1, s2) \<leftarrow> u_malloc s1 4234;
        (p2, s3) \<leftarrow> u_malloc s2 40;
        (p3, s4) \<leftarrow> u_malloc s3 33333;
        s5 \<leftarrow> u_free s4 p1;
        s6 \<leftarrow> u_free s5 p0;
        s7 \<leftarrow> u_free s6 p3;
        s8 \<leftarrow> u_free s7 p2;
        Some (p0 \<noteq> 0 \<and> p1 \<noteq> 0 \<and> p2 \<noteq> 0 \<and> p3 \<noteq> 0, brk s8) }
   = Some (True, 0x10000)"
  using harness_returns_break [of "0x10000" blank] by simp

section \<open>Releasing null, and releasing twice (C8)\<close>

lemma header_overwritten [simp]:
  "(x :: mem_header)\<lparr>size_h := a, free := f, prev := p, next := n\<rparr>
   = \<lparr>size_h = a, free = f, prev = p, next = n\<rparr>"
  by (cases x) simp

lemma deref_Some: "deref st p = Some h \<longleftrightarrow> mapped st p \<and> h = mem st p"
  by (auto simp: deref_def)

lemma store_Some:
  "store p f st = Some st' \<longleftrightarrow> mapped st p \<and> st' = st\<lparr>mem := (mem st)(p := f (mem st p))\<rparr>"
  by (auto simp: store_def)









section \<open>First fit and the split policy (C5)\<close>

lemma deref_mapped [simp]: "mapped st p \<Longrightarrow> deref st p = Some (mem st p)"
  by (simp add: deref_def)

lemma store_mapped [simp]:
  "mapped st p \<Longrightarrow> store p f st = Some (st\<lparr>mem := (mem st)(p := f (mem st p))\<rparr>)"
  by (simp add: store_def)

lemma mapped_mem_update [simp]: "mapped (st\<lparr>mem := m\<rparr>) p = mapped st p"
  by (simp add: mapped_def)

lemma mapped_tail_update [simp]: "mapped (st\<lparr>tail_ptr := t\<rparr>) p = mapped st p"
  by (simp add: mapped_def)

lemma find_fit_first:
  assumes "chain (mem st) p (pre @ b # post)"
    and "list_all (mapped st) pre" and "mapped st b"
    and "list_all (\<lambda>a. \<not> (free (mem st a) \<and> s + hdr \<le> size_h (mem st a))) pre"
    and "free (mem st b) \<and> s + hdr \<le> size_h (mem st b)"
  shows "find_fit st s p = Some b"
  using assms
proof (induction pre arbitrary: p)
  case Nil
  then show ?case by (subst find_fit.simps) simp
next
  case (Cons a pre)
  then have "find_fit st s (next (mem st a)) = Some b" by simp
  with Cons.prems show ?case by (subst find_fit.simps) auto
qed

lemma find_fit_none:
  assumes "chain (mem st) p bs" and "list_all (mapped st) bs"
    and "list_all (\<lambda>a. \<not> (free (mem st a) \<and> s + hdr \<le> size_h (mem st a))) bs"
  shows "find_fit st s p = Some 0"
  using assms
proof (induction bs arbitrary: p)
  case Nil
  then show ?case by (simp add: find_fit.simps)
next
  case (Cons a bs)
  then have "find_fit st s (next (mem st a)) = Some 0" by simp
  with Cons.prems show ?case by (subst find_fit.simps) auto
qed

text \<open>What lines 76 to 96 do to a block, when the remainder is a header of its own.\<close>

lemma take_block_split:
  assumes "mapped st b" and "mapped st (b + s + hdr)" and "b + s + hdr \<noteq> b"
    and "s + 2 * hdr < size_h (mem st b)"
  shows "take_block st b s = Some (b + hdr,
    st\<lparr>mem := (mem st)
          (b + s + hdr := \<lparr>size_h = size_h (mem st b) - (s + hdr), free = True, prev = b,
                           next = next (mem st b)\<rparr>,
           b := (mem st b)\<lparr>next := b + s + hdr, size_h := s, free := False\<rparr>),
       tail_ptr := if tail_ptr st = b then b + s + hdr else tail_ptr st\<rparr>)"
proof -
  have "b + s + hdr \<noteq> 0"
    using assms(2) by (simp add: mapped_def)
  with assms show ?thesis
    by (simp add: take_block_def Let_def)
qed

lemma take_block_whole:
  assumes "mapped st b" and "\<not> s + 2 * hdr < size_h (mem st b)"
  shows "take_block st b s = Some (b + hdr,
    st\<lparr>mem := (mem st)(b := (mem st b)\<lparr>free := False\<rparr>),
       tail_ptr := if tail_ptr st = b \<and> next (mem st b) \<noteq> 0 then next (mem st b) else tail_ptr st\<rparr>)"
  using assms by (simp add: take_block_def Let_def)

lemma unat_hdr [simp]: "unat hdr = 32"
  by (simp add: hdr_def)

lemma unat_plus_hdr: "unat s + 32 < 2 ^ 64 \<Longrightarrow> unat (s + hdr) = unat s + 32"
  using unat_add_nowrap [of s hdr] by simp

lemma unat_plus_2hdr: "unat s + 64 < 2 ^ 64 \<Longrightarrow> unat (s + 2 * hdr) = unat s + 64"
  using unat_add_nowrap [of s "2 * hdr"] by (simp add: hdr_def)

text \<open>The comparison of line 75 is the comparison over the integers when \<open>s + 32\<close> does not wrap.\<close>

lemma fits_word:
  assumes "unat s + 32 < 2 ^ 64"
  shows "(free (m a) \<and> s + hdr \<le> size_h (m a)) = fits m s a"
  by (simp add: fits_def word_le_nat_alt unat_plus_hdr [OF assms])

lemma chain_mid_nz: "chain m p (pre @ b # post) \<Longrightarrow> b \<noteq> 0"
  by (induction pre arbitrary: p) auto

text \<open>
  C5. The heap is not empty, its directory is \<open>pre @ b # post\<close>, no block of \<open>pre\<close> fits
  the effective size \<open>s\<close> of the request and \<open>b\<close> fits it; the headers of \<open>pre\<close> lie
  below the break and \<open>b\<close> ends at or below it, as every block of a contiguous heap
  does. Then \<^verbatim>\<open>_malloc\<close> returns the payload of \<open>b\<close>. When the size of \<open>b\<close> exceeds \<open>s + 64\<close> it writes a free remainder header
  at \<open>b + s + 32\<close>, of size \<open>size b - s - 32\<close> and with the old successor of \<open>b\<close> as
  its \<open>next\<close>, makes it the \<open>next\<close> of \<open>b\<close> and sets the size of \<open>b\<close> to \<open>s\<close>;
  otherwise \<open>b\<close> keeps its size and its successor. In both cases \<open>b\<close> is marked in use.
  All comparisons are over the integers.
\<close>

theorem first_fit_and_split:
  assumes n: "size0 \<noteq> 0" and s: "s = pad_size size0"
    and ne: "head_ptr st \<noteq> 0"
    and dir: "chain (mem st) (head_ptr st) (pre @ b # post)"
    and first: "list_all (\<lambda>a. \<not> fits (mem st) s a) pre"
    and fit: "fits (mem st) s b"
    and inside: "list_all (mapped st) pre"
    and ext: "unat b + 32 + unat (size_h (mem st b)) \<le> unat (brk st)"
  shows "u_malloc st size0 = Some (b + hdr,
           if unat s + 64 < unat (size_h (mem st b))
           then st\<lparr>mem := (mem st)
                   (b + s + hdr := \<lparr>size_h = size_h (mem st b) - (s + hdr), free = True, prev = b,
                                    next = next (mem st b)\<rparr>,
                    b := (mem st b)\<lparr>next := b + s + hdr, size_h := s, free := False\<rparr>),
                  tail_ptr := if tail_ptr st = b then b + s + hdr else tail_ptr st\<rparr>
           else st\<lparr>mem := (mem st)(b := (mem st b)\<lparr>free := False\<rparr>),
                  tail_ptr := if tail_ptr st = b \<and> next (mem st b) \<noteq> 0 then next (mem st b)
                              else tail_ptr st\<rparr>)
         \<and> unat (size_h (mem st b) - (s + hdr)) = unat (size_h (mem st b)) - unat s - 32"
proof -
  let ?old = "size_h (mem st b)"
  have b: "b \<noteq> 0"
    using dir by (rule chain_mid_nz)
  have top: "unat (brk st) < 2 ^ 64"
    using unsigned_less [of "brk st", where 'a = nat] by simp
  from fit have fr: "free (mem st b)" and le: "unat s + 32 \<le> unat ?old"
    by (simp_all add: fits_def)
  from le ext top have nw64: "unat s + 64 < 2 ^ 64" and nw32: "unat s + 32 < 2 ^ 64"
    by linarith+
  have mb: "mapped st b"
    using b ext by (simp add: mapped_def)
  have ff: "find_fit st s (head_ptr st) = Some b"
  proof (rule find_fit_first [OF dir inside mb])
    show "list_all (\<lambda>a. \<not> (free (mem st a) \<and> s + hdr \<le> size_h (mem st a))) pre"
      using first by (simp add: fits_word [OF nw32])
    show "free (mem st b) \<and> s + hdr \<le> size_h (mem st b)"
      using fit by (simp add: fits_word [OF nw32])
  qed
  have split_iff: "(s + 2 * hdr < ?old) = (unat s + 64 < unat ?old)"
    by (simp add: word_less_nat_alt unat_plus_2hdr [OF nw64])
  have sh: "unat (s + hdr) = unat s + 32"
    by (rule unat_plus_hdr [OF nw32])
  have nw: "unat b + unat (s + hdr) < 2 ^ 64"
    using sh le ext top by linarith
  have "b + (s + hdr) \<noteq> 0"
    using b nw by (rule add_nz)
  then have nb0: "b + s + hdr \<noteq> 0"
    by (simp add: add.assoc)
  have "unat (b + (s + hdr)) = unat b + unat s + 32"
    using unat_add_nowrap [OF nw] sh by simp
  then have un: "unat (b + s + hdr) = unat b + unat s + 32"
    by (simp add: add.assoc)
  have mn: "mapped st (b + s + hdr)" if "unat s + 64 < unat ?old"
    using that nb0 un ext by (simp add: mapped_def)
  have "s + hdr \<noteq> 0"
    using sh by (metis add_is_0 unat_0 zero_neq_numeral)
  then have nbb: "b + s + hdr \<noteq> b"
    by (simp add: add.assoc)
  have "s + hdr \<le> ?old"
    using le by (simp add: word_le_nat_alt sh)
  then have rem: "unat (?old - (s + hdr)) = unat ?old - unat s - 32"
    by (simp add: unat_sub sh)
  have "u_malloc st size0 = take_block st b s"
    using n ne b ff by (simp add: u_malloc_def s)
  then show ?thesis
    using rem mn take_block_split [OF mb _ nbb] take_block_whole [OF mb, of s]
    by (simp add: split_iff)
qed

text \<open>
  The witness: a request of 200 bytes, of effective size 208, on the heap of three
  blocks. The first block is free and too small, the second is in use, the third fits
  and is split.
\<close>

theorem first_fit_and_split_witness:
  "(200 :: 64 word) \<noteq> 0 \<and> pad_size 200 = 208
   \<and> head_ptr three_blocks \<noteq> 0
   \<and> chain (mem three_blocks) (head_ptr three_blocks) ([0x10000, 0x10090] @ 0x10120 # [])
   \<and> list_all (\<lambda>a. \<not> fits (mem three_blocks) 208 a) [0x10000, 0x10090]
   \<and> fits (mem three_blocks) 208 0x10120
   \<and> list_all (mapped three_blocks) [0x10000, 0x10090]
   \<and> unat (0x10120 :: 64 word) + 32 + unat (size_h (mem three_blocks 0x10120))
       \<le> unat (brk three_blocks)
   \<and> unat (208 :: 64 word) + 64 < unat (size_h (mem three_blocks 0x10120))
   \<and> u_malloc three_blocks 200 = Some (0x10140,
        three_blocks\<lparr>mem := (mem three_blocks)
            (0x10210 := \<lparr>size_h = 3536, free = True, prev = 0x10120, next = 0\<rparr>,
             0x10120 := \<lparr>size_h = 208, free = False, prev = 0x10090, next = 0x10210\<rparr>),
          tail_ptr := 0x10210\<rparr>)"
  using first_fit_and_split [of 200 208 three_blocks "[0x10000, 0x10090]" "0x10120" "[]"]
  by (simp add: three_blocks_def fits_def mapped_def pad_size_def padding_def hdr_def
      ALIGNMENT_WIDTH_def blank_def)

section \<open>The amount by which the heap grows (C10)\<close>

text \<open>Only \<^verbatim>\<open>sbrk\<close> writes the log of its calls.\<close>

lemma sbrk_log: "sbrk_calls (snd (sbrk d st)) = d # sbrk_calls st"
  by (simp add: sbrk_def Let_def)

lemma take_block_log:
  assumes "take_block st b s = Some (p, st')"
  shows "sbrk_calls st' = sbrk_calls st"
  using assms
  by (auto simp: take_block_def Let_def bind_eq_Some_conv store_Some deref_Some split: if_splits)

lemma place_block_log:
  assumes "place_block e st = Some st'"
  shows "sbrk_calls st' = sbrk_calls st"
  using assms
  by (auto simp: place_block_def bind_eq_Some_conv store_Some deref_Some split: if_splits)

lemma tail_slack_log:
  assumes "tail_slack s l st = Some st'"
  shows "sbrk_calls st' = sbrk_calls st"
  using assms
  by (auto simp: tail_slack_def Let_def bind_eq_Some_conv store_Some deref_Some split: if_splits)

lemma extend_heap_log:
  assumes "extend_heap st s e a = Some (p, st')"
  shows "sbrk_calls st' = block_size_for s a # sbrk_calls st"
proof (cases "fst (sbrk (block_size_for s a) st) = - 1")
  case True
  with assms show ?thesis
    using sbrk_log [of "block_size_for s a" st]
    by (auto simp: extend_heap_def Let_def split: prod.splits)
next
  case False
  with assms obtain s2 where
    a: "place_block e (snd (sbrk (block_size_for s a) st)) = Some s2"
    and c: "tail_slack s (block_size_for s a + a - (s + hdr))
              (s2\<lparr>mem := (mem s2)(tail_ptr s2 :=
                  mem s2 (tail_ptr s2)\<lparr>next := 0, free := False, size_h := s\<rparr>)\<rparr>) = Some st'"
    by (auto simp: extend_heap_def Let_def bind_eq_Some_conv store_Some split: prod.splits)
  show ?thesis
    using place_block_log [OF a] tail_slack_log [OF c] sbrk_log [of "block_size_for s a" st]
    by simp
qed

lemma round_up_nat:
  fixes X :: nat
  assumes "X mod 4096 \<noteq> 0"
  shows "(X + (4096 - X mod 4096)) mod 4096 = 0"
proof -
  have r: "X mod 4096 < 4096" by simp
  have "(X + (4096 - X mod 4096)) mod 4096 = (X mod 4096 + (4096 - X mod 4096)) mod 4096"
    by (simp only: mod_add_left_eq)
  also have "X mod 4096 + (4096 - X mod 4096) = 4096"
    using r by linarith
  finally show ?thesis by simp
qed

lemma mod_2p64_mod_4096: "(x :: nat) mod 2 ^ 64 mod 4096 = x mod 4096"
  by (rule mod_mod_cancel) simp

lemma unat_PAGE_SIZE [simp]: "unat PAGE_SIZE = 4096"
  by (simp add: PAGE_SIZE_def)

lemma unat_page_gap:
  "unat (PAGE_SIZE - x mod PAGE_SIZE) = 4096 - unat x mod 4096"
proof -
  have "unat (x mod PAGE_SIZE) = unat x mod 4096"
    by (simp add: unat_mod)
  moreover have "x mod PAGE_SIZE \<le> PAGE_SIZE"
    by (simp add: word_le_nat_alt unat_mod)
  ultimately show ?thesis
    by (simp add: unat_sub)
qed

lemma page_mod_zero: "(x mod PAGE_SIZE = 0) = (unat x mod 4096 = 0)"
  by (metis unat_mod unat_PAGE_SIZE unat_eq_zero)

lemma unat_block_size_exact:
  assumes "unat (s + hdr - a) mod 4096 = 0"
  shows "unat (block_size_for s a) = unat (s + hdr - a)"
  using assms by (simp add: block_size_for_def Let_def page_mod_zero)

lemma unat_block_size_round:
  assumes "unat (s + hdr - a) mod 4096 \<noteq> 0"
  shows "unat (block_size_for s a)
         = (unat (s + hdr - a) + (4096 - unat (s + hdr - a) mod 4096)) mod 2 ^ 64"
proof -
  have "block_size_for s a = (s + hdr - a) + (PAGE_SIZE - (s + hdr - a) mod PAGE_SIZE)"
    using assms by (simp add: block_size_for_def Let_def page_mod_zero)
  then have "unat (block_size_for s a)
      = (unat (s + hdr - a) + unat (PAGE_SIZE - (s + hdr - a) mod PAGE_SIZE)) mod 2 ^ 64"
    by (simp only: unat_word_ariths(1)) simp
  then show ?thesis
    by (simp only: unat_page_gap)
qed

lemma block_size_for_pages: "unat (block_size_for s a) mod 4096 = 0"
proof (cases "unat (s + hdr - a) mod 4096 = 0")
  case True
  then show ?thesis by (simp add: unat_block_size_exact)
next
  case False
  show ?thesis
    unfolding unat_block_size_round [OF False] mod_2p64_mod_4096
    by (rule round_up_nat [OF False])
qed

lemma block_size_for_bounds:
  assumes "unat (s + hdr - a) + 4095 < 2 ^ 64"
  shows "unat (s + hdr - a) \<le> unat (block_size_for s a)"
    and "unat (block_size_for s a) < unat (s + hdr - a) + 4096"
proof -
  let ?X = "unat (s + hdr - a)"
  have r: "?X mod 4096 < 4096" by simp
  have e: "unat (block_size_for s a) =
      (if ?X mod 4096 \<noteq> 0 then ?X + (4096 - ?X mod 4096) else ?X)"
  proof (cases "?X mod 4096 = 0")
    case True
    then show ?thesis by (simp add: unat_block_size_exact)
  next
    case False
    have "?X + (4096 - ?X mod 4096) < 2 ^ 64"
      using assms r False by linarith
    then have "(?X + (4096 - ?X mod 4096)) mod 2 ^ 64 = ?X + (4096 - ?X mod 4096)"
      by (rule mod_less)
    with False show ?thesis
      by (simp only: unat_block_size_round [OF False] if_True not_False_eq_True)
  qed
  show "?X \<le> unat (block_size_for s a)"
    unfolding e using r by (cases "?X mod 4096 = 0") simp_all
  show "unat (block_size_for s a) < ?X + 4096"
    unfolding e using r by (cases "?X mod 4096 = 0") simp_all
qed

lemma block_size_for_wraps_to_zero:
  assumes "2 ^ 64 - 4096 < unat (s + hdr - a)"
  shows "block_size_for s a = 0"
proof -
  let ?X = "unat (s + hdr - a)"
  have lt: "?X < 2 ^ 64"
    using unsigned_less [of "s + hdr - a", where 'a = nat] by simp
  obtain d where d: "?X = 2 ^ 64 - d" "0 < d" "d < 4096"
  proof
    show "?X = 2 ^ 64 - (2 ^ 64 - ?X)" using lt by simp
    show "0 < 2 ^ 64 - ?X" using lt by simp
    show "2 ^ 64 - ?X < 4096" using assms by simp
  qed
  have "?X = (2 ^ 64 - 4096) + (4096 - d)"
    using d by simp
  then have "?X mod 4096 = ((2 ^ 64 - 4096) + (4096 - d)) mod 4096"
    by simp
  also have "\<dots> = (4096 - d) mod 4096"
    by (simp add: mod_add_left_eq [symmetric])
  also have "\<dots> = 4096 - d"
    using d by simp
  finally have m: "?X mod 4096 = 4096 - d" .
  then have nz: "?X mod 4096 \<noteq> 0" using d by simp
  have "?X + (4096 - ?X mod 4096) = 2 ^ 64"
    unfolding m using d by simp
  then have "unat (block_size_for s a) = 2 ^ 64 mod 2 ^ 64"
    by (simp only: unat_block_size_round [OF nz])
  then have "unat (block_size_for s a) = 0"
    by simp
  then show ?thesis
    by (simp add: unat_eq_zero)
qed

lemma unat_sub_64:
  "unat (x - y :: 64 word) = (if unat y \<le> unat x then unat x - unat y else unat x + 2 ^ 64 - unat y)"
  using unat_sub_if_size [of x y] by (simp add: word_size)

lemma sint_small:
  assumes "unat (w :: 64 word) < 2 ^ 63"
  shows "sint w = int (unat w)"
proof -
  have "int (unat w) < int (2 ^ 63)"
    using assms by (simp only: of_nat_less_iff)
  then have "uint w < 2 ^ 63" by simp
  moreover have "- (2 ^ 63) \<le> uint w"
    by (rule order_trans [of _ 0]) simp_all
  ultimately have "signed_take_bit 63 (uint w) = uint w"
    by (intro signed_take_bit_int_eq_self) simp_all
  then have "sint w = uint w"
    by (simp add: sint_uint)
  then show ?thesis by simp
qed

lemma pages_sint:
  assumes "unat (w :: 64 word) < 2 ^ 63" and "unat w mod 4096 = 0"
  shows "0 \<le> sint w \<and> 4096 dvd sint w"
proof -
  have "4096 dvd unat w"
    using assms(2) by (simp add: dvd_eq_mod_eq_0)
  then have "int 4096 dvd int (unat w)"
    by (simp only: int_dvd_int_iff)
  then show ?thesis
    by (simp add: sint_small [OF assms(1)])
qed

text \<open>The growth of the heap for a request that is not too large, without a tail credit.\<close>

lemma growth_plain:
  assumes bound: "unat s + 4128 \<le> 2 ^ 63"
  shows "0 \<le> sint (block_size_for s 0) \<and> 4096 dvd sint (block_size_for s 0)"
proof -
  have p63: "(2 :: nat) ^ 64 = 2 ^ 63 + 2 ^ 63" by simp
  have sh: "unat (s + hdr) = unat s + 32"
    using bound p63 by (intro unat_plus_hdr) linarith
  then have x: "unat (s + hdr - 0) = unat s + 32"
    by simp
  have "unat (block_size_for s 0) < unat s + 32 + 4096"
    using block_size_for_bounds(2) [of s 0] x bound p63 by linarith
  then have "unat (block_size_for s 0) < 2 ^ 63"
    using bound by linarith
  then show ?thesis
    using block_size_for_pages [of s 0] by (rule pages_sint)
qed

text \<open>
  The same with the credit of a free tail of size \<open>t\<close> that is too small for the request.
  When \<open>t\<close> exceeds \<open>s\<close>, the difference wraps and the rounding takes it to 0.
\<close>

lemma growth_credit:
  assumes bound: "unat s + 4128 \<le> 2 ^ 63"
    and small: "unat t < unat s + 32"
  shows "0 \<le> sint (block_size_for s (t + hdr)) \<and> 4096 dvd sint (block_size_for s (t + hdr))"
    and "unat s < unat t \<Longrightarrow> block_size_for s (t + hdr) = 0"
proof -
  have p63: "(2 :: nat) ^ 64 = 2 ^ 63 + 2 ^ 63" by simp
  have d: "s + hdr - (t + hdr) = s - t"
    by simp
  have z: "block_size_for s (t + hdr) = 0" if "unat s < unat t"
  proof -
    have "unat (s - t) = unat s + 2 ^ 64 - unat t"
      using that by (simp add: unat_sub_64)
    moreover have "(4096 :: nat) \<le> 2 ^ 64"
      by simp
    ultimately have "2 ^ 64 - 4096 < unat (s + hdr - (t + hdr))"
      unfolding d using that small by linarith
    then show ?thesis
      by (rule block_size_for_wraps_to_zero)
  qed
  show "unat s < unat t \<Longrightarrow> block_size_for s (t + hdr) = 0"
    by (rule z)
  show "0 \<le> sint (block_size_for s (t + hdr)) \<and> 4096 dvd sint (block_size_for s (t + hdr))"
  proof (cases "unat t \<le> unat s")
    case True
    then have "unat (s - t) = unat s - unat t"
      by (simp add: unat_sub_64)
    then have x: "unat (s + hdr - (t + hdr)) = unat s - unat t"
      unfolding d .
    have "unat (block_size_for s (t + hdr)) < unat s - unat t + 4096"
      using block_size_for_bounds(2) [of s "t + hdr"] x bound p63 by linarith
    then have "unat (block_size_for s (t + hdr)) < 2 ^ 63"
      using bound by linarith
    then show ?thesis
      using block_size_for_pages [of s "t + hdr"] by (rule pages_sint)
  next
    case False
    then have "block_size_for s (t + hdr) = 0"
      by (intro z) simp
    then show ?thesis by simp
  qed
qed

lemma find_fit_failed:
  assumes "chain (mem st) p bs" and "find_fit st s p = Some 0"
  shows "list_all (\<lambda>a. \<not> (free (mem st a) \<and> s + hdr \<le> size_h (mem st a))) bs"
  using assms
proof (induction bs arbitrary: p)
  case Nil
  then show ?case by simp
next
  case (Cons a bs)
  from Cons.prems have a: "p = a" "a \<noteq> 0" "chain (mem st) (next (mem st a)) bs"
    by simp_all
  from Cons.prems(2) a have nf: "\<not> (free (mem st a) \<and> s + hdr \<le> size_h (mem st a))"
    by (subst (asm) find_fit.simps) (auto simp: bind_eq_Some_conv deref_Some split: if_splits)
  with Cons.prems(2) a have "find_fit st s (next (mem st a)) = Some 0"
    by (subst (asm) find_fit.simps) (auto simp: bind_eq_Some_conv deref_Some split: if_splits)
  with Cons.IH a nf show ?case by simp
qed

text \<open>
  C10 says that in every call that reaches the extension step the increment passed to
  \<^verbatim>\<open>sbrk\<close> is a non-negative multiple of the page size, and that a tail credit larger
  than the request rounds to an increment of zero.

  First run. The source rounds in \<^verbatim>\<open>size_t\<close> and converts to \<^verbatim>\<open>ptrdiff_t\<close>
  (line 114) without a check: a request of \<open>2 ^ 63\<close> bytes on an empty heap asks
  \<^verbatim>\<open>sbrk\<close> for \<open>4096 - 2 ^ 63\<close> bytes. With the break at \<open>0x10000\<close> the system
  refuses and \<^verbatim>\<open>_malloc\<close> returns null.

  Second run. Allocate 100, 100 and 7872 bytes on a fresh heap; the third block, at
  \<open>0x10120\<close>, ends at the break \<open>0x12000\<close> and is the tail. Release the second
  block, then the third: the second absorbs the third, one page goes back to the system,
  the first block is the only block left, and \<open>tail_ptr\<close> still points at \<open>0x10120\<close>
  (it is the missing assignment of C2), where the bytes of the old header say free, 7872
  bytes. A request of 100 bytes, of effective size 112, now finds no fit in the
  directory, takes the credit of 7904 bytes from that header, and computes the growth
  \<open>144 - 7904\<close>, which rounds to \<open>- 4096\<close>. \<^verbatim>\<open>sbrk\<close> moves the break down to
  \<open>0x10000\<close>, the start of the block in use, and the call then writes to the header at
  \<open>0x10120\<close>, above the break.
\<close>

theorem negative_growth:
  "map_option (\<lambda>(p, s). (p, map sint (sbrk_calls s), brk s))
     (u_malloc (fresh_heap blank 0x10000 []) 0x8000000000000000)
   = Some (0, [- 9223372036854771712, 0], 0x10000)
   \<and>
   do { (c, s1) \<leftarrow> u_malloc (fresh_heap blank 0x10000 []) 100;
        (a, s2) \<leftarrow> u_malloc s1 100;
        (b, s3) \<leftarrow> u_malloc s2 7872;
        s4 \<leftarrow> u_free s3 a;
        s5 \<leftarrow> u_free s4 b;
        heap_ptr \<leftarrow> find_fit s5 (pad_size 100) (head_ptr s5);
        t \<leftarrow> deref s5 (tail_ptr s5);
        Some (walk 8 (mem s3) (head_ptr s3), tail_ptr s3, brk s3,
              walk 8 (mem s5) (head_ptr s5), tail_ptr s5, brk s5,
              heap_ptr, free t, size_h t,
              sint (block_size_for (pad_size 100) (size_h t + hdr)),
              brk (snd (sbrk (block_size_for (pad_size 100) (size_h t + hdr)) s5)),
              u_malloc s5 100) }
   = Some ([0x10000, 0x10090, 0x10120], 0x10120, 0x12000,
           [0x10000], 0x10120, 0x11000,
           0, True, 7872, - 4096, 0x10000, None)"
  by (simp add: run_defs)

text \<open>
  C10 as amended. The effective size \<open>s\<close> of the request is at most
  \<open>2 ^ 63 - 4128\<close>, so that \<open>s + 32\<close> rounded up to whole pages is below \<open>2 ^ 63\<close>;
  the heap is empty, or its directory is a finite chain and \<open>tail_ptr\<close> points at a
  block of it. Then every call of \<^verbatim>\<open>sbrk\<close> that a returning \<^verbatim>\<open>_malloc\<close> has made
  has an increment that is a non-negative multiple of 4096. And when the search has
  failed and the tail header \<open>t\<close> can be read, the call is the extension step with the
  credit of \<open>t\<close>, and the increment that this step passes to \<^verbatim>\<open>sbrk\<close> is a
  non-negative multiple of 4096, whatever happens afterwards; in particular, when the
  tail is free and larger than \<open>s\<close>, the difference \<open>s - tail.size\<close> wraps, and the
  rounding takes it to 0.
\<close>

theorem growth_is_whole_pages:
  assumes n: "size0 \<noteq> 0" and s: "s = pad_size size0"
    and bound: "unat s + 4128 \<le> 2 ^ 63"
    and heap: "head_ptr st = 0 \<or> (chain (mem st) (head_ptr st) bs \<and> tail_ptr st \<in> set bs)"
  shows "(u_malloc st size0 = Some (p, st') \<longrightarrow>
            (\<exists>ds. sbrk_calls st' = ds @ sbrk_calls st
                 \<and> list_all (\<lambda>d. 0 \<le> sint d \<and> 4096 dvd sint d) ds))
       \<and> (head_ptr st \<noteq> 0 \<and> find_fit st s (head_ptr st) = Some 0
            \<and> deref st (tail_ptr st) = Some t \<longrightarrow>
          u_malloc st size0 = extend_heap st s False (if free t then size_h t + hdr else 0)
          \<and> 0 \<le> sint (block_size_for s (if free t then size_h t + hdr else 0))
          \<and> 4096 dvd sint (block_size_for s (if free t then size_h t + hdr else 0))
          \<and> (free t \<and> unat s < unat (size_h t) \<longrightarrow> block_size_for s (size_h t + hdr) = 0))"
proof (intro conjI impI)
  assume ext: "head_ptr st \<noteq> 0 \<and> find_fit st s (head_ptr st) = Some 0
               \<and> deref st (tail_ptr st) = Some t"
  let ?a = "if free t then size_h t + hdr else 0"
  from ext heap have dir: "chain (mem st) (head_ptr st) bs" and tl: "tail_ptr st \<in> set bs"
    by simp_all
  from ext have t: "t = mem st (tail_ptr st)"
    by (simp add: deref_Some)
  have p63: "(2 :: nat) ^ 64 = 2 ^ 63 + 2 ^ 63" by simp
  have sh: "unat (s + hdr) = unat s + 32"
    using bound p63 by (intro unat_plus_hdr) linarith
  from find_fit_failed [OF dir] ext tl have "\<not> (free t \<and> s + hdr \<le> size_h t)"
    by (simp add: list_all_iff t)
  then have small: "unat (size_h t) < unat s + 32" if "free t"
    using that by (simp add: word_le_nat_alt sh)
  show "u_malloc st size0 = extend_heap st s False ?a"
    using n ext by (simp add: u_malloc_def s [symmetric])
  have ok: "0 \<le> sint (block_size_for s ?a) \<and> 4096 dvd sint (block_size_for s ?a)"
    using growth_plain [OF bound] growth_credit(1) [OF bound small] by simp
  then show "0 \<le> sint (block_size_for s ?a)" and "4096 dvd sint (block_size_for s ?a)"
    by simp_all
  show "block_size_for s (size_h t + hdr) = 0" if "free t \<and> unat s < unat (size_h t)"
    using that growth_credit(2) [OF bound small] by simp
next
  assume call: "u_malloc st size0 = Some (p, st')"
  show "\<exists>ds. sbrk_calls st' = ds @ sbrk_calls st
             \<and> list_all (\<lambda>d. 0 \<le> sint d \<and> 4096 dvd sint d) ds"
  proof (cases "head_ptr st = 0")
    case True
    let ?st1 = "snd (sbrk 0 st)"
    let ?st2 = "?st1\<lparr>head_ptr := fst (sbrk 0 st), tail_ptr := fst (sbrk 0 st)\<rparr>"
    have l2: "sbrk_calls ?st2 = 0 # sbrk_calls st"
      by (simp add: sbrk_log)
    have "sbrk_calls st' = [0] @ sbrk_calls st
          \<or> sbrk_calls st' = [block_size_for s 0, 0] @ sbrk_calls st"
    proof (cases "fst (sbrk 0 st) = - 1")
      case True
      with call n \<open>head_ptr st = 0\<close> have "st' = ?st2"
        by (auto simp: u_malloc_def Let_def split: prod.splits)
      with l2 show ?thesis by simp
    next
      case False
      with call n \<open>head_ptr st = 0\<close> have "extend_heap ?st2 s True 0 = Some (p, st')"
        by (auto simp: u_malloc_def Let_def s [symmetric] split: prod.splits)
      from extend_heap_log [OF this] l2 show ?thesis by simp
    qed
    with growth_plain [OF bound] show ?thesis
      by auto
  next
    case False
    with heap have dir: "chain (mem st) (head_ptr st) bs" and tl: "tail_ptr st \<in> set bs"
      by simp_all
    from call n False obtain hp where ff: "find_fit st s (head_ptr st) = Some hp"
      and rest: "(if hp \<noteq> 0 then take_block st hp s
                  else deref st (tail_ptr st) \<bind>
                    (\<lambda>t. extend_heap st s False (if free t then size_h t + hdr else 0))) = Some (p, st')"
      by (auto simp: u_malloc_def Let_def s [symmetric] bind_eq_Some_conv)
    show ?thesis
    proof (cases "hp = 0")
      case False
      with rest have "sbrk_calls st' = sbrk_calls st"
        by (simp add: take_block_log)
      then show ?thesis by simp
    next
      case True
      let ?t = "mem st (tail_ptr st)"
      let ?a = "if free ?t then size_h ?t + hdr else 0"
      from True rest have "extend_heap st s False ?a = Some (p, st')"
        by (auto simp: bind_eq_Some_conv deref_Some)
      then have l: "sbrk_calls st' = block_size_for s ?a # sbrk_calls st"
        by (rule extend_heap_log)
      have p63: "(2 :: nat) ^ 64 = 2 ^ 63 + 2 ^ 63" by simp
      have sh: "unat (s + hdr) = unat s + 32"
        using bound p63 by (intro unat_plus_hdr) linarith
      from find_fit_failed [OF dir] ff True tl
      have "\<not> (free ?t \<and> s + hdr \<le> size_h ?t)"
        by (simp add: list_all_iff)
      then have small: "unat (size_h ?t) < unat s + 32" if "free ?t"
        using that by (simp add: word_le_nat_alt sh)
      have "0 \<le> sint (block_size_for s ?a) \<and> 4096 dvd sint (block_size_for s ?a)"
        using growth_plain [OF bound] growth_credit(1) [OF bound small] by simp
      with l show ?thesis
        by simp
    qed
  qed
qed

text \<open>
  The witness: \<open>credit_heap\<close> is the state after 3900 bytes have been allocated on a
  fresh heap, with a block of 3904 bytes in use and a free tail of 128 bytes. A request
  of 100 bytes has the effective size 112. The tail is too small for it
  (128 < 112 + 32), its credit of 160 bytes exceeds the 144 bytes needed, and the heap
  grows by 0 bytes.
\<close>

theorem growth_is_whole_pages_witness:
  "u_malloc (fresh_heap blank 0x10000 []) 3900 = Some (0x10020, credit_heap)
   \<and> (100 :: 64 word) \<noteq> 0 \<and> pad_size 100 = 112 \<and> unat (112 :: 64 word) + 4128 \<le> 2 ^ 63
   \<and> chain (mem credit_heap) (head_ptr credit_heap) [0x10000, 0x10F60]
   \<and> tail_ptr credit_heap \<in> set [0x10000, 0x10F60]
   \<and> head_ptr credit_heap \<noteq> 0
   \<and> find_fit credit_heap 112 (head_ptr credit_heap) = Some 0
   \<and> deref credit_heap (tail_ptr credit_heap)
       = Some \<lparr>size_h = 128, free = True, prev = 0x10000, next = 0\<rparr>
   \<and> unat (112 :: 64 word) < unat (128 :: 64 word)
   \<and> block_size_for 112 (128 + hdr) = 0
   \<and> u_malloc credit_heap 100 = Some (0x10F80,
        credit_heap\<lparr>mem := (mem credit_heap)
            (0x10F60 := \<lparr>size_h = 128, free = False, prev = 0x10000, next = 0\<rparr>),
          sbrk_calls := [0, 4096, 0]\<rparr>)
   \<and> sbrk_calls (credit_heap\<lparr>mem := (mem credit_heap)
            (0x10F60 := \<lparr>size_h = 128, free = False, prev = 0x10000, next = 0\<rparr>),
          sbrk_calls := [0, 4096, 0]\<rparr>) = [0] @ sbrk_calls credit_heap"
  using growth_is_whole_pages [of 100 112 credit_heap "[0x10000, 0x10F60]" "0x10F80"
      "credit_heap\<lparr>mem := (mem credit_heap)
            (0x10F60 := \<lparr>size_h = 128, free = False, prev = 0x10000, next = 0\<rparr>),
          sbrk_calls := [0, 4096, 0]\<rparr>"
      "\<lparr>size_h = 128, free = True, prev = 0x10000, next = 0\<rparr>"]
  by (simp add: credit_heap_def run_defs)

section \<open>Block sizes are not zero (C9)\<close>






















































end
